theory Spec2Isabelle
  imports Complex_Main
begin

section \<open>Python values and exceptions\<close>

text \<open>
  The three exceptions the modelled code can raise by itself: a list index out of range,
  a failed \<^verbatim>\<open>int(...)\<close>, \<^verbatim>\<open>str.index\<close> or \<^verbatim>\<open>range(..., 0)\<close>,
  and a division by zero.
\<close>

datatype py_error = IndexError | ValueError | ZeroDivisionError

text \<open>
  A returned number is either a Python \<^verbatim>\<open>int\<close> or a \<^verbatim>\<open>float\<close>. A float is
  represented by the exact rational value of the expression that produced it: the
  rounding of the result to binary64 is not part of the model.
\<close>

datatype pynum = PyInt int | PyFloat rat

fun num_val :: "pynum \<Rightarrow> rat" where
  "num_val (PyInt i) = of_int i"
| "num_val (PyFloat q) = q"

subsection \<open>Sequences\<close>

text \<open>\<^verbatim>\<open>xs[i]\<close>: a negative index counts from the end, an index out of range raises.\<close>

definition py_get :: "'a list \<Rightarrow> int \<Rightarrow> py_error + 'a" where
  "py_get xs i =
     (if 0 \<le> i \<and> i < int (length xs) then Inr (xs ! nat i)
      else if i < 0 \<and> - int (length xs) \<le> i then Inr (xs ! nat (int (length xs) + i))
      else Inl IndexError)"



text \<open>\<^verbatim>\<open>a // b\<close> on integers: floor division, raising on a zero divisor.\<close>

definition py_floordiv :: "int \<Rightarrow> int \<Rightarrow> py_error + int" where
  "py_floordiv a b = (if b \<noteq> 0 then Inr (a div b) else Inl ZeroDivisionError)"

text \<open>\<^verbatim>\<open>range(start, stop, step)\<close> as the list of its elements.\<close>

definition range_len :: "int \<Rightarrow> int \<Rightarrow> int \<Rightarrow> nat" where
  "range_len start stop step =
     (if 0 < step then (if start < stop then nat ((stop - start - 1) div step + 1) else 0)
      else if step < 0 then (if stop < start then nat ((start - stop - 1) div (- step) + 1) else 0)
      else 0)"

definition py_range :: "int \<Rightarrow> int \<Rightarrow> int \<Rightarrow> py_error + int list" where
  "py_range start stop step =
     (if step = 0 then Inl ValueError
      else Inr (map (\<lambda>k. start + int k * step) [0..<range_len start stop step]))"

text \<open>
  Evaluating a list of computations in order; the first exception ends the evaluation.
  It is used for a list comprehension whose element expression can raise, and for
  \<^verbatim>\<open>asyncio.gather\<close>, where the model takes the exception of the earliest failing
  awaitable in argument order.
\<close>

fun collect :: "(py_error + 'a) list \<Rightarrow> py_error + 'a list" where
  "collect [] = Inr []"
| "collect (x # xs) =
     (case x of Inl e \<Rightarrow> Inl e
      | Inr v \<Rightarrow> (case collect xs of Inl e \<Rightarrow> Inl e | Inr vs \<Rightarrow> Inr (v # vs)))"

text \<open>
  A \<^verbatim>\<open>dict\<close> keeps its keys in insertion order; assigning to a key that is present
  replaces the value in place.
\<close>

fun dict_set :: "('k \<times> 'v) list \<Rightarrow> 'k \<Rightarrow> 'v \<Rightarrow> ('k \<times> 'v) list" where
  "dict_set [] k v = [(k, v)]"
| "dict_set ((k', v') # d) k v =
     (if k' = k then (k, v) # d else (k', v') # dict_set d k v)"

subsection \<open>Strings\<close>

text \<open>
  The text of the diagnostic stream is a list of characters with code points below 256.
  \<^verbatim>\<open>str.split()\<close> splits at runs of whitespace; below 256 the whitespace
  characters are 9 to 13, 28 to 32, 133 and 160.
\<close>

definition is_space :: "char \<Rightarrow> bool" where
  "is_space c =
     (let n = (of_char c :: nat)
      in (9 \<le> n \<and> n \<le> 13) \<or> (28 \<le> n \<and> n \<le> 32) \<or> n = 133 \<or> n = 160)"

fun split_ws :: "string \<Rightarrow> string \<Rightarrow> string list" where
  "split_ws w [] = (if w = [] then [] else [w])"
| "split_ws w (c # cs) =
     (if is_space c then (if w = [] then split_ws [] cs else w # split_ws [] cs)
      else split_ws (w @ [c]) cs)"

definition py_split :: "string \<Rightarrow> string list" where
  "py_split s = split_ws [] s"

text \<open>\<^verbatim>\<open>s.split(sep)\<close> for a one-character separator: every occurrence splits.\<close>

fun split_at :: "char \<Rightarrow> string \<Rightarrow> string \<Rightarrow> string list" where
  "split_at sep w [] = [w]"
| "split_at sep w (c # cs) =
     (if c = sep then w # split_at sep [] cs else split_at sep (w @ [c]) cs)"

definition py_split_sep :: "char \<Rightarrow> string \<Rightarrow> string list" where
  "py_split_sep sep s = split_at sep [] s"

text \<open>\<^verbatim>\<open>sub in s\<close> and \<^verbatim>\<open>s.index(sub)\<close>.\<close>

definition starts_with :: "string \<Rightarrow> string \<Rightarrow> bool" where
  "starts_with sub s = (take (length sub) s = sub)"

fun find_sub :: "nat \<Rightarrow> string \<Rightarrow> string \<Rightarrow> nat option" where
  "find_sub n sub [] = (if sub = [] then Some n else None)"
| "find_sub n sub (c # cs) =
     (if starts_with sub (c # cs) then Some n else find_sub (Suc n) sub cs)"

definition py_in :: "string \<Rightarrow> string \<Rightarrow> bool" where
  "py_in sub s = (find_sub 0 sub s \<noteq> None)"

definition py_index :: "string \<Rightarrow> string \<Rightarrow> py_error + int" where
  "py_index s sub = (case find_sub 0 sub s of None \<Rightarrow> Inl ValueError | Some n \<Rightarrow> Inr (int n))"

text \<open>\<^verbatim>\<open>s.replace(c, '')\<close> for a one-character \<^verbatim>\<open>c\<close>: every occurrence is dropped.\<close>

definition py_remove :: "char \<Rightarrow> string \<Rightarrow> string" where
  "py_remove c s = filter (\<lambda>x. x \<noteq> c) s"

text \<open>
  \<^verbatim>\<open>int(s)\<close> in base 10 on a string without whitespace: an optional sign, then
  digits, where single underscores may stand between two digits. Anything else raises
  \<^verbatim>\<open>ValueError\<close>. The interpreter's optional limit on the number of digits is not
  modelled.
\<close>

definition is_digit :: "char \<Rightarrow> bool" where
  "is_digit c = (let n = (of_char c :: nat) in 48 \<le> n \<and> n \<le> 57)"

definition digit_val :: "char \<Rightarrow> nat" where
  "digit_val c = of_char c - 48"

fun parse_digits :: "bool \<Rightarrow> nat \<Rightarrow> string \<Rightarrow> nat option" where
  "parse_digits after_digit acc [] = (if after_digit then Some acc else None)"
| "parse_digits after_digit acc (c # cs) =
     (if is_digit c then parse_digits True (10 * acc + digit_val c) cs
      else if c = CHR ''_'' \<and> after_digit then parse_digits False acc cs
      else None)"

definition py_int :: "string \<Rightarrow> py_error + int" where
  "py_int s =
     (case s of
        [] \<Rightarrow> Inl ValueError
      | c # cs \<Rightarrow>
          if c = CHR ''-'' then
            (case parse_digits False 0 cs of None \<Rightarrow> Inl ValueError | Some n \<Rightarrow> Inr (- int n))
          else if c = CHR ''+'' then
            (case parse_digits False 0 cs of None \<Rightarrow> Inl ValueError | Some n \<Rightarrow> Inr (int n))
          else
            (case parse_digits False 0 (c # cs) of None \<Rightarrow> Inl ValueError | Some n \<Rightarrow> Inr (int n)))"

section \<open>The measurement step\<close>

text \<open>
  The loop over the lines of the simulator's diagnostic stream, shared by
  \<^verbatim>\<open>run_valgrind\<close> (ordered.py) and \<^verbatim>\<open>execute\<close> (old/run.py). The state is the
  pair \<open>(drefs, d1_miss)\<close>; the label of the miss line is tested first and has two
  blanks between \<^verbatim>\<open>D1\<close> and \<^verbatim>\<open>misses\<close>.
\<close>

definition field3 :: "string \<Rightarrow> py_error + int" where
  "field3 line =
     (case py_get (py_split line) 3 of
        Inl e \<Rightarrow> Inl e
      | Inr tok \<Rightarrow> py_int (py_remove (CHR '','') tok))"

definition scan_line :: "int \<times> int \<Rightarrow> string \<Rightarrow> py_error + (int \<times> int)" where
  "scan_line st line =
     (if py_in ''D1  misses'' line then
        (case field3 line of Inl e \<Rightarrow> Inl e | Inr v \<Rightarrow> Inr (fst st, v))
      else if py_in ''D refs'' line then
        (case field3 line of Inl e \<Rightarrow> Inl e | Inr v \<Rightarrow> Inr (v, snd st))
      else Inr st)"

fun scan_lines :: "int \<times> int \<Rightarrow> string list \<Rightarrow> py_error + (int \<times> int)" where
  "scan_lines st [] = Inr st"
| "scan_lines st (line # rest) =
     (case scan_line st line of Inl e \<Rightarrow> Inl e | Inr st' \<Rightarrow> scan_lines st' rest)"

definition stderr_lines :: "string \<Rightarrow> string list" where
  "stderr_lines out = py_split_sep (CHR 0x0A) out"

text \<open>The value returned after the loop: the integer 0 when no reference was counted.\<close>

definition miss_ratio :: "pynum \<Rightarrow> int \<times> int \<Rightarrow> pynum" where
  "miss_ratio cold_miss st =
     (if fst st = 0 then PyInt 0
      else PyFloat ((of_int (snd st) - num_val cold_miss) / of_int (fst st)))"

subsection \<open>ordered.py\<close>

text \<open>
  The external tools are parameters. A compiled program is the function from the data
  cache geometry \<open>(size, associativity, block)\<close> of the simulator's command line to
  the text of its diagnostic stream; the compiler is a function from the defines of its
  command line (element type, \<open>M\<close>, \<open>N\<close>, the three loop macros) to a compiled
  program.
\<close>

type_synonym simulator = "int \<times> int \<times> int \<Rightarrow> string"


definition d1_geometry :: "int \<Rightarrow> int \<Rightarrow> int option \<Rightarrow> py_error + (int \<times> int \<times> int)" where
  "d1_geometry cache_size block_size assoc =
     (case assoc of
        None \<Rightarrow>
          (case py_floordiv cache_size block_size of
             Inl e \<Rightarrow> Inl e
           | Inr a \<Rightarrow> Inr (cache_size, a, block_size))
      | Some a \<Rightarrow> Inr (cache_size, a, block_size))"

definition run_valgrind :: "simulator \<Rightarrow> int \<Rightarrow> int \<Rightarrow> int option \<Rightarrow> py_error + pynum" where
  "run_valgrind exe cache_size block_size assoc =
     (case d1_geometry cache_size block_size assoc of
        Inl e \<Rightarrow> Inl e
      | Inr g \<Rightarrow>
          (case scan_lines (0, 0) (stderr_lines (exe g)) of
             Inl e \<Rightarrow> Inl e
           | Inr st \<Rightarrow> Inr (miss_ratio (PyInt 0) st)))"


definition orders :: "string list" where
  "orders = [''I_LOOP'', ''J_LOOP'', ''K_LOOP'']"

text \<open>A yielded triple is modelled as the list of its three components.\<close>

definition order_generator :: "py_error + string list list" where
  "order_generator =
     collect [collect [py_get orders i, py_get orders j, py_get orders (3 - i - j)].
              i \<leftarrow> [0, 1, 2], j \<leftarrow> [0, 1, 2], i \<noteq> j]"

definition order_to_name :: "string list \<Rightarrow> py_error + string" where
  "order_to_name order =
     (case collect (map (\<lambda>i. py_get (py_split_sep (CHR ''_'') i) 0) order) of
        Inl e \<Rightarrow> Inl e
      | Inr parts \<Rightarrow> Inr (concat parts))"

definition name_to_order :: "string \<Rightarrow> py_error + string list" where
  "name_to_order name =
     collect (map (\<lambda>i. case py_index ''IJK'' [i] of Inl e \<Rightarrow> Inl e | Inr k \<Rightarrow> py_get orders k) name)"








subsection \<open>old/run.py\<close>

text \<open>
  The parsed command line. \<open>assoc\<close> is \<open>None\<close> until \<^verbatim>\<open>main\<close> resolves it.
  The simulator is the function from a configuration to the text of the diagnostic
  stream of the run made for it.
\<close>

record Args =
  type_arg :: string
  size_arg :: int
  cache :: int
  block :: int
  assoc :: "int option"
  remove_cold :: bool
  batch :: string
  batch_start :: int
  batch_end :: int
  batch_step :: int

definition cold_miss :: "Args \<Rightarrow> py_error + pynum" where
  "cold_miss args =
     (if remove_cold args then
        (if block args = 0 then Inl ZeroDivisionError
         else Inr (PyFloat (of_int (size_arg args * size_arg args * 3) / of_int (block args))))
      else Inr (PyInt 0))"

definition execute :: "(Args \<Rightarrow> string) \<Rightarrow> Args \<Rightarrow> py_error + pynum" where
  "execute sim args =
     (case cold_miss args of
        Inl e \<Rightarrow> Inl e
      | Inr cm \<Rightarrow>
          (case scan_lines (0, 0) (stderr_lines (sim args)) of
             Inl e \<Rightarrow> Inl e
           | Inr st \<Rightarrow> Inr (miss_ratio cm st)))"

text \<open>The configuration of the unit of work for the swept value \<open>i\<close>.\<close>

definition unit_args :: "Args \<Rightarrow> int \<Rightarrow> py_error + Args" where
  "unit_args args i =
     (if batch args = ''cache'' then
        (let my_args = args\<lparr>cache := i\<rparr>
         in case py_floordiv (cache my_args) (block my_args) of
              Inl e \<Rightarrow> Inl e
            | Inr a \<Rightarrow> Inr (my_args\<lparr>assoc := Some a\<rparr>))
      else if batch args = ''size'' then Inr (args\<lparr>size_arg := i\<rparr>)
      else Inr args)"

text \<open>
  The first loop of \<^verbatim>\<open>batch_execute\<close> fills the dictionary \<^verbatim>\<open>tasks\<close>, a task
  being modelled by the configuration it was created for; the second loop awaits the
  tasks in the order of the dictionary.
\<close>

fun create_tasks :: "Args \<Rightarrow> (int \<times> Args) list \<Rightarrow> int list \<Rightarrow> py_error + (int \<times> Args) list" where
  "create_tasks args tasks [] = Inr tasks"
| "create_tasks args tasks (i # rest) =
     (case unit_args args i of
        Inl e \<Rightarrow> Inl e
      | Inr my_args \<Rightarrow> create_tasks args (dict_set tasks i my_args) rest)"

fun await_tasks :: "(Args \<Rightarrow> string) \<Rightarrow> (int \<times> pynum) list \<Rightarrow> (int \<times> Args) list
                     \<Rightarrow> py_error + (int \<times> pynum) list" where
  "await_tasks sim res [] = Inr res"
| "await_tasks sim res (kv # rest) =
     (case execute sim (snd kv) of
        Inl e \<Rightarrow> Inl e
      | Inr v \<Rightarrow> await_tasks sim (dict_set res (fst kv) v) rest)"

definition batch_execute :: "(Args \<Rightarrow> string) \<Rightarrow> Args \<Rightarrow> py_error + (int \<times> pynum) list" where
  "batch_execute sim args =
     (case py_range (batch_start args) (batch_end args + 1) (batch_step args) of
        Inl e \<Rightarrow> Inl e
      | Inr keys \<Rightarrow>
          (case create_tasks args [] keys of
             Inl e \<Rightarrow> Inl e
           | Inr tasks \<Rightarrow> await_tasks sim [] tasks))"


section \<open>Notions used in the statements\<close>

text \<open>A line that carries neither label leaves the counters alone.\<close>

definition unlabelled :: "string \<Rightarrow> bool" where
  "unlabelled line = (\<not> py_in ''D1  misses'' line \<and> \<not> py_in ''D refs'' line)"



definition in_unit_interval :: "pynum \<Rightarrow> bool" where
  "in_unit_interval r = (0 \<le> num_val r \<and> num_val r \<le> 1)"



text \<open>The configuration that \<^verbatim>\<open>argparse\<close> builds from an empty command line (old/run.py).\<close>

definition default_args :: Args where
  "default_args =
     \<lparr>type_arg = ''double'', size_arg = 128, cache = 1024, block = 32, assoc = None,
      remove_cold = False, batch = [], batch_start = 0, batch_end = 0, batch_step = 1\<rparr>"

text \<open>
  Sample diagnostic streams: the two lines as the specification quotes them; the same
  lines behind a process tag; the two lines in the simulator's spelling; a stream with
  more misses than references; a stream with few misses; a stream without any labelled
  line; a stream whose miss line is cut short.
\<close>

definition quoted_stream :: string where
  "quoted_stream = ''D refs: 1,000\<newline>D1 misses: 200''"

definition tagged_stream :: string where
  "tagged_stream = ''==1== D refs: 1,000\<newline>==1== D1 misses: 200''"

definition summary_stream :: string where
  "summary_stream = ''==1== D refs: 1,000\<newline>==1== D1  misses: 200\<newline>''"

definition excess_stream :: string where
  "excess_stream = ''==1== D refs: 100\<newline>==1== D1  misses: 200\<newline>''"

definition few_misses_stream :: string where
  "few_misses_stream = ''==1== D refs: 1,000\<newline>==1== D1  misses: 10\<newline>''"



text \<open>The two summary lines in the simulator's spelling.\<close>

definition refs_line :: string where
  "refs_line = ''==1== D refs: 1,000''"

definition miss_line :: string where
  "miss_line = ''==1== D1  misses: 200''"

text \<open>A program, a compiler and a simulator that print a given stream whatever they are given.\<close>

definition printing :: "string \<Rightarrow> simulator" where
  "printing out g = out"


definition simulating :: "string \<Rightarrow> Args \<Rightarrow> string" where
  "simulating out args = out"

section \<open>Properties\<close>

subsection \<open>Loop orders\<close>

lemma collect_map_Inr:
  "(\<And>x. x \<in> set xs \<Longrightarrow> f x = Inr (g x)) \<Longrightarrow> collect (map f xs) = Inr (map g xs)"
  by (induction xs) auto

lemma order_generator_value:
  "order_generator =
     Inr [[''I_LOOP'', ''J_LOOP'', ''K_LOOP''], [''I_LOOP'', ''K_LOOP'', ''J_LOOP''],
          [''J_LOOP'', ''I_LOOP'', ''K_LOOP''], [''J_LOOP'', ''K_LOOP'', ''I_LOOP''],
          [''K_LOOP'', ''I_LOOP'', ''J_LOOP''], [''K_LOOP'', ''J_LOOP'', ''I_LOOP'']]"
  by (simp add: order_generator_def orders_def py_get_def)

lemma perm3_cases:
  assumes "distinct p" and "set p = {a, b, c}" and "a \<noteq> b" and "a \<noteq> c" and "b \<noteq> c"
  shows "p \<in> {[a, b, c], [a, c, b], [b, a, c], [b, c, a], [c, a, b], [c, b, a]}"
proof -
  have "length p = card {a, b, c}" using assms(1,2) by (metis distinct_card)
  then have "length p = 3" using assms(3-5) by simp
  then obtain x y z where p: "p = [x, y, z]"
    by (metis length_0_conv length_Suc_conv numeral_3_eq_3)
  have "x \<in> {a, b, c}" "y \<in> {a, b, c}" "z \<in> {a, b, c}"
    using assms(2) unfolding p by auto
  moreover have "x \<noteq> y" "x \<noteq> z" "y \<noteq> z"
    using assms(1) unfolding p by auto
  ultimately show ?thesis unfolding p by auto
qed

text \<open>
  Claim C6. Enumerating all loop orders yields six triples without repetition, and the
  triples yielded are exactly the arrangements of the three loop macros in which every
  macro occurs once.
\<close>

theorem order_generator_permutations:
  "\<exists>os. order_generator = Inr os \<and> length os = 6 \<and> distinct os
        \<and> set os = {p. distinct p \<and> set p = set orders}"
proof -
  let ?os = "[[''I_LOOP'', ''J_LOOP'', ''K_LOOP''], [''I_LOOP'', ''K_LOOP'', ''J_LOOP''],
          [''J_LOOP'', ''I_LOOP'', ''K_LOOP''], [''J_LOOP'', ''K_LOOP'', ''I_LOOP''],
          [''K_LOOP'', ''I_LOOP'', ''J_LOOP''], [''K_LOOP'', ''J_LOOP'', ''I_LOOP'']]"
  have "set ?os = {p. distinct p \<and> set p = set orders}" (is "?L = ?R")
  proof
    show "?L \<subseteq> ?R" by (auto simp: orders_def)
    show "?R \<subseteq> ?L"
    proof
      fix p assume "p \<in> ?R"
      then have "distinct p" and "set p = {''I_LOOP'', ''J_LOOP'', ''K_LOOP''}"
        by (simp_all add: orders_def)
      from perm3_cases[OF this] show "p \<in> ?L" by simp
    qed
  qed
  moreover have "distinct ?os" by simp
  moreover have "length ?os = 6" by simp
  ultimately show ?thesis using order_generator_value by blast
qed

lemma letter_to_loop:
  "c \<in> {CHR ''I'', CHR ''J'', CHR ''K''} \<Longrightarrow>
   (case py_index ''IJK'' [c] of Inl e \<Rightarrow> Inl e | Inr k \<Rightarrow> py_get orders k) = Inr (c # ''_LOOP'')"
  by (auto simp: py_index_def starts_with_def py_get_def orders_def)

lemma loop_to_letter:
  "c \<noteq> CHR ''_'' \<Longrightarrow> py_get (py_split_sep (CHR ''_'') (c # ''_LOOP'')) 0 = Inr [c]"
  by (simp add: py_split_sep_def py_get_def)

text \<open>
  Claim C9. For every name of three letters over \<open>I\<close>, \<open>J\<close>, \<open>K\<close>, converting
  the name to a loop order succeeds and converting that order back gives the name.
\<close>

theorem name_order_roundtrip:
  assumes "length s = 3" and "set s \<subseteq> {CHR ''I'', CHR ''J'', CHR ''K''}"
  shows "\<exists>order. name_to_order s = Inr order \<and> order_to_name order = Inr s"
proof -
  let ?order = "map (\<lambda>c. c # ''_LOOP'') s"
  have 1: "name_to_order s = Inr ?order"
    unfolding name_to_order_def
    by (rule collect_map_Inr) (use assms(2) in \<open>auto intro!: letter_to_loop\<close>)
  have "collect (map (\<lambda>i. py_get (py_split_sep (CHR ''_'') i) 0) ?order)
          = Inr (map (\<lambda>c. [c]) s)"
    unfolding map_map comp_def
    by (rule collect_map_Inr) (use assms(2) in \<open>auto intro!: loop_to_letter\<close>)
  then have "order_to_name ?order = Inr s"
    by (simp add: order_to_name_def)
  with 1 show ?thesis by blast
qed

theorem name_order_roundtrip_witness:
  "length ''KIJ'' = 3 \<and> set ''KIJ'' \<subseteq> {CHR ''I'', CHR ''J'', CHR ''K''}
   \<and> (\<exists>order. name_to_order ''KIJ'' = Inr order \<and> order_to_name order = Inr ''KIJ'')"
  using name_order_roundtrip [of "''KIJ''"] by simp

subsection \<open>Scanning the diagnostic stream\<close>

lemma scan_line_unlabelled: "unlabelled line \<Longrightarrow> scan_line st line = Inr st"
  by (simp add: scan_line_def unlabelled_def)

lemma scan_lines_labelled:
  "scan_lines st ls = scan_lines st (filter (\<lambda>l. \<not> unlabelled l) ls)"
proof (induction ls arbitrary: st)
  case Nil
  show ?case by simp
next
  case (Cons l ls)
  show ?case
  proof (cases "unlabelled l")
    case True
    then show ?thesis using Cons.IH by (simp add: scan_line_unlabelled)
  next
    case False
    then show ?thesis using Cons.IH by (simp split: sum.splits)
  qed
qed

lemma scan_line_refs_line: "scan_line (drefs, d1_miss) refs_line = Inr (1000, d1_miss)"
proof -
  have "py_in ''D1  misses'' refs_line = False" by code_simp
  moreover have "py_in ''D refs'' refs_line = True" by code_simp
  moreover have "field3 refs_line = Inr 1000" by code_simp
  ultimately show ?thesis by (simp add: scan_line_def)
qed

lemma scan_line_miss_line: "scan_line (drefs, d1_miss) miss_line = Inr (drefs, 200)"
proof -
  have "py_in ''D1  misses'' miss_line = True" by code_simp
  moreover have "field3 miss_line = Inr 200" by code_simp
  ultimately show ?thesis by (simp add: scan_line_def)
qed

lemma scan_two_lines:
  assumes "filter (\<lambda>l. \<not> unlabelled l) ls \<in> {[refs_line, miss_line], [miss_line, refs_line]}"
  shows "scan_lines (0, 0) ls = Inr (1000, 200)"
proof -
  have "scan_lines (0, 0) [refs_line, miss_line] = Inr (1000, 200)"
    by (simp add: scan_line_refs_line scan_line_miss_line)
  moreover have "scan_lines (0, 0) [miss_line, refs_line] = Inr (1000, 200)"
    by (simp add: scan_line_refs_line scan_line_miss_line)
  ultimately show ?thesis
    using assms scan_lines_labelled [of "(0, 0)" ls] by auto
qed


text \<open>
  The two lines as the specification quotes them: the reference line has three tokens, so
  reading its fourth raises. Behind a process tag the reference line is read, but the
  miss label with a single blank is not recognised and the miss count stays 0.
\<close>

theorem spec_example_counterexample:
  "run_valgrind (printing quoted_stream) 1024 32 None = Inl IndexError
   \<and> execute (simulating quoted_stream) default_args = Inl IndexError
   \<and> run_valgrind (printing tagged_stream) 1024 32 None = Inr (PyFloat 0)
   \<and> execute (simulating tagged_stream) default_args = Inr (PyFloat 0)"
  by code_simp

text \<open>
  Claim C1, amended. On a line that contains the miss label, or else the reference label,
  the counter becomes the integer read from the fourth whitespace-delimited token with
  its commas removed. For every stream whose labelled lines are the reference line with
  1,000 and the miss line with 200 in the simulator's spelling, \<^verbatim>\<open>run_valgrind\<close>
  returns 200/1000 and \<^verbatim>\<open>execute\<close> returns (200 - cold misses)/1000.
\<close>

theorem measurement_parsing:
  "(py_in ''D1  misses'' line \<and> py_get (py_split line) 3 = Inr tok
      \<and> py_int (py_remove (CHR '','') tok) = Inr v
      \<longrightarrow> scan_line (drefs, d1_miss) line = Inr (drefs, v))
   \<and> (\<not> py_in ''D1  misses'' line \<and> py_in ''D refs'' line \<and> py_get (py_split line) 3 = Inr tok
      \<and> py_int (py_remove (CHR '','') tok) = Inr v
      \<longrightarrow> scan_line (drefs, d1_miss) line = Inr (v, d1_miss))
   \<and> (filter (\<lambda>l. \<not> unlabelled l) (stderr_lines out) \<in> {[refs_line, miss_line], [miss_line, refs_line]}
      \<longrightarrow> (d1_geometry cache_size block_size a = Inr g \<and> exe g = out
            \<longrightarrow> run_valgrind exe cache_size block_size a = Inr (PyFloat (200 / 1000)))
        \<and> (cold_miss args = Inr cm \<and> sim args = out
            \<longrightarrow> execute sim args = Inr (PyFloat ((200 - num_val cm) / 1000))))"
proof (intro conjI impI)
  assume "py_in ''D1  misses'' line \<and> py_get (py_split line) 3 = Inr tok
      \<and> py_int (py_remove (CHR '','') tok) = Inr v"
  then show "scan_line (drefs, d1_miss) line = Inr (drefs, v)"
    by (simp add: scan_line_def field3_def)
next
  assume "\<not> py_in ''D1  misses'' line \<and> py_in ''D refs'' line \<and> py_get (py_split line) 3 = Inr tok
      \<and> py_int (py_remove (CHR '','') tok) = Inr v"
  then show "scan_line (drefs, d1_miss) line = Inr (v, d1_miss)"
    by (simp add: scan_line_def field3_def)
next
  assume two: "filter (\<lambda>l. \<not> unlabelled l) (stderr_lines out) \<in> {[refs_line, miss_line], [miss_line, refs_line]}"
    and "d1_geometry cache_size block_size a = Inr g \<and> exe g = out"
  then show "run_valgrind exe cache_size block_size a = Inr (PyFloat (200 / 1000))"
    using scan_two_lines [OF two] by (simp add: run_valgrind_def miss_ratio_def)
next
  assume two: "filter (\<lambda>l. \<not> unlabelled l) (stderr_lines out) \<in> {[refs_line, miss_line], [miss_line, refs_line]}"
    and "cold_miss args = Inr cm \<and> sim args = out"
  then show "execute sim args = Inr (PyFloat ((200 - num_val cm) / 1000))"
    using scan_two_lines [OF two] by (simp add: execute_def miss_ratio_def)
qed

theorem measurement_parsing_witness:
  "scan_line (0, 0) miss_line = Inr (0, 200)
   \<and> scan_line (0, 0) refs_line = Inr (1000, 0)
   \<and> run_valgrind (printing summary_stream) 1024 32 None = Inr (PyFloat (200 / 1000))
   \<and> execute (simulating summary_stream) (default_args\<lparr>remove_cold := True, size_arg := 16\<rparr>)
       = Inr (PyFloat ((200 - num_val (PyFloat 24)) / 1000))"
proof -
  have m: "py_in ''D1  misses'' miss_line \<and> py_get (py_split miss_line) 3 = Inr ''200''
      \<and> py_int (py_remove (CHR '','') ''200'') = Inr 200"
    by code_simp
  have r: "\<not> py_in ''D1  misses'' refs_line \<and> py_in ''D refs'' refs_line
      \<and> py_get (py_split refs_line) 3 = Inr ''1,000''
      \<and> py_int (py_remove (CHR '','') ''1,000'') = Inr 1000"
    by code_simp
  have two: "filter (\<lambda>l. \<not> unlabelled l) (stderr_lines summary_stream)
      \<in> {[refs_line, miss_line], [miss_line, refs_line]}"
    by code_simp
  have g: "d1_geometry 1024 32 None = Inr (1024, 32, 32) \<and> printing summary_stream (1024, 32, 32) = summary_stream"
    by (simp add: d1_geometry_def py_floordiv_def printing_def)
  have c: "cold_miss (default_args\<lparr>remove_cold := True, size_arg := 16\<rparr>) = Inr (PyFloat 24)
      \<and> simulating summary_stream (default_args\<lparr>remove_cold := True, size_arg := 16\<rparr>) = summary_stream"
    by (simp add: cold_miss_def default_args_def simulating_def)
  note T1 = measurement_parsing [of miss_line "''200''" 200 0 0 summary_stream 1024 32 None "(1024, 32, 32)"
      "printing summary_stream" "default_args\<lparr>remove_cold := True, size_arg := 16\<rparr>" "PyFloat 24"
      "simulating summary_stream"]
  note T2 = measurement_parsing [of refs_line "''1,000''" 1000 0 0 summary_stream 1024 32 None "(1024, 32, 32)"
      "printing summary_stream" "default_args\<lparr>remove_cold := True, size_arg := 16\<rparr>" "PyFloat 24"
      "simulating summary_stream"]
  from T1 T2 m r two g c show ?thesis by blast
qed

subsection \<open>The measurement result\<close>




text \<open>
  A stream with more misses than references gives the ratio 2; with cold-miss removal,
  10 misses against an estimate of 24 give a negative ratio.
\<close>

theorem result_outside_unit_interval_counterexample:
  "run_valgrind (printing excess_stream) 1024 32 None = Inr (PyFloat 2)
   \<and> \<not> in_unit_interval (PyFloat 2)
   \<and> execute (simulating few_misses_stream) (default_args\<lparr>remove_cold := True, size_arg := 16\<rparr>)
       = Inr (PyFloat (- 7 / 500))
   \<and> \<not> in_unit_interval (PyFloat (- 7 / 500))"
  by code_simp

text \<open>
  Claim C3, amended. When the scan ends with counters \<open>0 \<le> misses \<le> references\<close>,
  the value returned by \<^verbatim>\<open>run_valgrind\<close>, and by \<^verbatim>\<open>execute\<close> without cold-miss
  removal, lies in the unit interval, and it is the integer 0 when no reference was
  counted.
\<close>

theorem measurement_result_range:
  assumes "scan_lines (0, 0) (stderr_lines out) = Inr (drefs, d1_miss)"
    and "0 \<le> d1_miss" and "d1_miss \<le> drefs"
  shows "(d1_geometry cache_size block_size a = Inr g \<and> exe g = out
          \<longrightarrow> (\<exists>r. run_valgrind exe cache_size block_size a = Inr r \<and> in_unit_interval r
                 \<and> (drefs = 0 \<longrightarrow> r = PyInt 0)))
       \<and> (\<not> remove_cold args \<and> sim args = out
          \<longrightarrow> (\<exists>r. execute sim args = Inr r \<and> in_unit_interval r
                 \<and> (drefs = 0 \<longrightarrow> r = PyInt 0)))"
proof -
  have r: "in_unit_interval (miss_ratio (PyInt 0) (drefs, d1_miss))"
    using assms(2,3) by (simp add: miss_ratio_def in_unit_interval_def)
  have z: "drefs = 0 \<longrightarrow> miss_ratio (PyInt 0) (drefs, d1_miss) = PyInt 0"
    by (simp add: miss_ratio_def)
  show ?thesis
    using assms(1) r z by (auto simp: run_valgrind_def execute_def cold_miss_def)
qed

theorem measurement_result_range_witness:
  "run_valgrind (printing summary_stream) 1024 32 None = Inr (PyFloat (1 / 5))
   \<and> execute (simulating summary_stream) default_args = Inr (PyFloat (1 / 5))
   \<and> in_unit_interval (PyFloat (1 / 5))"
proof -
  have s: "scan_lines (0, 0) (stderr_lines summary_stream) = Inr (1000, 200)" by code_simp
  have b: "(0::int) \<le> 200" "(200::int) \<le> 1000" by simp_all
  have g: "d1_geometry 1024 32 None = Inr (1024, 32, 32) \<and> printing summary_stream (1024, 32, 32) = summary_stream"
    by (simp add: d1_geometry_def py_floordiv_def printing_def)
  have c: "\<not> remove_cold default_args \<and> simulating summary_stream default_args = summary_stream"
    by (simp add: default_args_def simulating_def)
  have v: "run_valgrind (printing summary_stream) 1024 32 None = Inr (PyFloat (1 / 5))"
    "execute (simulating summary_stream) default_args = Inr (PyFloat (1 / 5))"
    by code_simp+
  from measurement_result_range [OF s b, of 1024 32 None "(1024, 32, 32)" "printing summary_stream"
      default_args "simulating summary_stream"] g c
  have "\<exists>r. run_valgrind (printing summary_stream) 1024 32 None = Inr r \<and> in_unit_interval r"
    by blast
  with v show ?thesis by (metis sum.inject(2))
qed




subsection \<open>Associativity and sweep configurations\<close>





lemma set_dict_set: "set (dict_set d k v) \<subseteq> insert (k, v) (set d)"
  by (induction d) (auto split: if_splits)

lemma create_tasks_entries:
  assumes "create_tasks args acc keys = Inr tasks"
    and "\<forall>(k, u) \<in> set acc. unit_args args k = Inr u"
  shows "\<forall>(k, u) \<in> set tasks. unit_args args k = Inr u"
  using assms
proof (induction keys arbitrary: acc)
  case Nil
  then show ?case by simp
next
  case (Cons i keys)
  from Cons.prems(1) obtain my_args where u: "unit_args args i = Inr my_args"
    and rest: "create_tasks args (dict_set acc i my_args) keys = Inr tasks"
    by (auto split: sum.splits)
  have "\<forall>(k, u) \<in> set (dict_set acc i my_args). unit_args args k = Inr u"
    using set_dict_set [of acc i my_args] Cons.prems(2) u by auto
  from Cons.IH [OF rest this] show ?case .
qed

text \<open>
  Claim C10. In a sweep over the cache size the unit for the value \<open>i\<close> is the original
  configuration with cache size \<open>i\<close> and associativity \<open>i div block\<close>, whatever the
  associativity was; in a sweep over the matrix size it is the original configuration
  with size \<open>i\<close>, the associativity included. Every task of \<^verbatim>\<open>batch_execute\<close> is
  created for such a unit.
\<close>

theorem sweep_unit_configuration:
  "(batch args = ''cache'' \<and> block args \<noteq> 0
      \<longrightarrow> unit_args args i = Inr (args\<lparr>cache := i, assoc := Some (i div block args)\<rparr>))
   \<and> (batch args = ''size'' \<longrightarrow> unit_args args i = Inr (args\<lparr>size_arg := i\<rparr>))
   \<and> (create_tasks args [] keys = Inr tasks
      \<longrightarrow> (\<forall>(k, u) \<in> set tasks. unit_args args k = Inr u))"
proof (intro conjI impI)
  assume "batch args = ''cache'' \<and> block args \<noteq> 0"
  then show "unit_args args i = Inr (args\<lparr>cache := i, assoc := Some (i div block args)\<rparr>)"
    by (simp add: unit_args_def py_floordiv_def)
next
  assume "batch args = ''size''"
  then show "unit_args args i = Inr (args\<lparr>size_arg := i\<rparr>)"
    by (simp add: unit_args_def)
next
  assume "create_tasks args [] keys = Inr tasks"
  from create_tasks_entries [OF this] show "\<forall>(k, u) \<in> set tasks. unit_args args k = Inr u"
    by simp
qed

theorem sweep_unit_configuration_witness:
  "unit_args (default_args\<lparr>assoc := Some 4, batch := ''cache''\<rparr>) 512
     = Inr (default_args\<lparr>assoc := Some 4, batch := ''cache'', cache := 512, assoc := Some 16\<rparr>)
   \<and> unit_args (default_args\<lparr>assoc := Some 4, batch := ''size''\<rparr>) 64
     = Inr (default_args\<lparr>assoc := Some 4, batch := ''size'', size_arg := 64\<rparr>)
   \<and> unit_args (default_args\<lparr>batch := ''size''\<rparr>) 256
     = Inr (default_args\<lparr>batch := ''size'', size_arg := 256\<rparr>)"
proof -
  let ?c = "default_args\<lparr>assoc := Some 4, batch := ''cache''\<rparr>"
  let ?s = "default_args\<lparr>assoc := Some 4, batch := ''size''\<rparr>"
  let ?t = "default_args\<lparr>batch := ''size''\<rparr>"
  have hc: "batch ?c = ''cache'' \<and> block ?c \<noteq> 0" by (simp add: default_args_def)
  have hs: "batch ?s = ''size''" by simp
  have ht: "create_tasks ?t [] [256] = Inr [(256, default_args\<lparr>batch := ''size'', size_arg := 256\<rparr>)]"
    by (simp add: unit_args_def)
  have e: "(512::int) div block ?c = 16" by (simp add: default_args_def)
  from sweep_unit_configuration [of ?c 512] hc
  have 1: "unit_args ?c 512 = Inr (?c\<lparr>cache := 512, assoc := Some (512 div block ?c)\<rparr>)"
    by blast
  from sweep_unit_configuration [of ?s 64] hs
  have 2: "unit_args ?s 64 = Inr (?s\<lparr>size_arg := 64\<rparr>)" by blast
  from sweep_unit_configuration [of ?t 0 "[256]"] ht
  have 3: "\<forall>(k, u) \<in> set [(256, default_args\<lparr>batch := ''size'', size_arg := 256\<rparr>)].
         unit_args ?t k = Inr u"
    by blast
  from 1 2 3 show ?thesis unfolding e by simp
qed

subsection \<open>Ranges, dictionaries and batches\<close>

lemma py_range_elems:
  "py_range start stop step = Inr ks \<Longrightarrow>
   step \<noteq> 0 \<and> ks = map (\<lambda>k. start + int k * step) [0..<range_len start stop step]"
  by (auto simp: py_range_def split: if_splits)

lemma py_range_distinct:
  assumes "py_range start stop step = Inr ks"
  shows "distinct ks"
proof -
  from py_range_elems [OF assms] have s: "step \<noteq> 0"
    and ks: "ks = map (\<lambda>k. start + int k * step) [0..<range_len start stop step]" by auto
  have "inj (\<lambda>k. start + int k * step)" using s by (auto simp: inj_on_def)
  then show ?thesis unfolding ks by (simp add: distinct_map inj_on_def)
qed


lemma dict_set_fresh: "k \<notin> fst ` set d \<Longrightarrow> dict_set d k v = d @ [(k, v)]"
  by (induction d) auto

lemma create_tasks_fresh:
  assumes "distinct keys" and "fst ` set acc \<inter> set keys = {}"
    and "\<forall>k \<in> set keys. unit_args args k = Inr (u k)"
  shows "create_tasks args acc keys = Inr (acc @ map (\<lambda>k. (k, u k)) keys)"
  using assms
proof (induction keys arbitrary: acc)
  case Nil
  show ?case by simp
next
  case (Cons i keys)
  have fresh: "i \<notin> fst ` set acc" using Cons.prems(2) by auto
  have d: "distinct keys" and ni: "i \<notin> set keys" using Cons.prems(1) by auto
  have "fst ` set (acc @ [(i, u i)]) \<inter> set keys = {}"
    using Cons.prems(2) ni by auto
  from Cons.IH [OF d this] Cons.prems(3)
  have "create_tasks args (acc @ [(i, u i)]) keys = Inr ((acc @ [(i, u i)]) @ map (\<lambda>k. (k, u k)) keys)"
    by simp
  then show ?case using Cons.prems(3) by (simp add: dict_set_fresh [OF fresh])
qed

lemma create_tasks_units:
  "create_tasks args acc keys = Inr tasks \<Longrightarrow> \<forall>k \<in> set keys. \<exists>my. unit_args args k = Inr my"
  by (induction keys arbitrary: acc) (auto split: sum.splits)

lemma await_tasks_fresh:
  assumes "distinct (map fst ts)" and "fst ` set res \<inter> fst ` set ts = {}"
    and "\<forall>kv \<in> set ts. execute sim (snd kv) = Inr (r kv)"
  shows "await_tasks sim res ts = Inr (res @ map (\<lambda>kv. (fst kv, r kv)) ts)"
  using assms
proof (induction ts arbitrary: res)
  case Nil
  show ?case by simp
next
  case (Cons kv ts)
  have fresh: "fst kv \<notin> fst ` set res" using Cons.prems(2) by auto
  have d: "distinct (map fst ts)" and ni: "fst kv \<notin> fst ` set ts" using Cons.prems(1) by auto
  have "fst ` set (res @ [(fst kv, r kv)]) \<inter> fst ` set ts = {}"
    using Cons.prems(2) ni by auto
  from Cons.IH [OF d this] Cons.prems(3)
  have "await_tasks sim (res @ [(fst kv, r kv)]) ts
          = Inr ((res @ [(fst kv, r kv)]) @ map (\<lambda>kv. (fst kv, r kv)) ts)"
    by simp
  then show ?case using Cons.prems(3) by (simp add: dict_set_fresh [OF fresh])
qed

lemma await_tasks_results:
  "await_tasks sim res ts = Inr out \<Longrightarrow> \<forall>kv \<in> set ts. \<exists>v. execute sim (snd kv) = Inr v"
  by (induction ts arbitrary: res) (auto split: sum.splits)

lemma batch_execute_success:
  assumes "py_range (batch_start args) (batch_end args + 1) (batch_step args) = Inr keys"
    and "\<forall>k \<in> set keys. unit_args args k = Inr (u k)"
    and "\<forall>k \<in> set keys. execute sim (u k) = Inr (r k)"
  shows "batch_execute sim args = Inr (map (\<lambda>k. (k, r k)) keys)"
proof -
  have d: "distinct keys" by (rule py_range_distinct [OF assms(1)])
  have t: "create_tasks args [] keys = Inr (map (\<lambda>k. (k, u k)) keys)"
    using create_tasks_fresh [OF d _ assms(2), of "[]"] by simp
  have "await_tasks sim [] (map (\<lambda>k. (k, u k)) keys)
          = Inr ([] @ map (\<lambda>kv. (fst kv, r (fst kv))) (map (\<lambda>k. (k, u k)) keys))"
    by (rule await_tasks_fresh) (use d assms(3) in \<open>auto simp: comp_def\<close>)
  then show ?thesis using assms(1) t by (simp add: batch_execute_def comp_def)
qed

lemma batch_execute_keys:
  assumes "batch_execute sim args = Inr res"
  shows "py_range (batch_start args) (batch_end args + 1) (batch_step args) = Inr (map fst res)"
proof -
  from assms obtain keys tasks where
    k: "py_range (batch_start args) (batch_end args + 1) (batch_step args) = Inr keys"
    and t: "create_tasks args [] keys = Inr tasks"
    and a: "await_tasks sim [] tasks = Inr res"
    by (auto simp: batch_execute_def split: sum.splits)
  define u where "u k = projr (unit_args args k)" for k
  have 1: "\<forall>k \<in> set keys. unit_args args k = Inr (u k)"
    using create_tasks_units [OF t] by (auto simp: u_def)
  have d: "distinct keys" by (rule py_range_distinct [OF k])
  have tasks: "tasks = map (\<lambda>k. (k, u k)) keys"
    using create_tasks_fresh [OF d _ 1, of "[]"] t by simp
  define r where "r k = projr (execute sim (u k))" for k
  have 2: "\<forall>k \<in> set keys. execute sim (u k) = Inr (r k)"
    using await_tasks_results [OF a] by (auto simp: tasks r_def)
  from batch_execute_success [OF k 1 2] assms have "res = map (\<lambda>k. (k, r k)) keys" by simp
  then show ?thesis using k by (simp add: comp_def)
qed














lemma sweep_range: "py_range 256 (1024 + 1) 256 = Inr [256, 512, 768, 1024]"
  by code_simp

subsection \<open>Sweeps\<close>

text \<open>
  Claim C7. A sweep over the cache size with start 256, end 1024 and step 256, for a block
  size other than 0, has the keys 256, 512, 768 and 1024, the end value included: every
  result it returns has exactly these keys, and when the run of each of the four units
  returns a measurement result, the sweep returns the four results, one per key.
\<close>

theorem cache_sweep_keys:
  assumes "batch args = ''cache''" and "batch_start args = 256" and "batch_end args = 1024"
    and "batch_step args = 256" and "block args \<noteq> 0"
  shows "(batch_execute sim args = Inr res \<longrightarrow> map fst res = [256, 512, 768, 1024])
    \<and> ((\<forall>k \<in> set [256, 512, 768, 1024].
           execute sim (args\<lparr>cache := k, assoc := Some (k div block args)\<rparr>) = Inr (r k))
        \<longrightarrow> batch_execute sim args
              = Inr [(256, r 256), (512, r 512), (768, r 768), (1024, r 1024)])"
proof (intro conjI impI)
  have range: "py_range (batch_start args) (batch_end args + 1) (batch_step args)
                 = Inr [256, 512, 768, 1024]"
    using assms(2-4) sweep_range by simp
  {
    assume "batch_execute sim args = Inr res"
    from batch_execute_keys [OF this] range show "map fst res = [256, 512, 768, 1024]" by simp
  }
  {
    assume ok: "\<forall>k \<in> set [256, 512, 768, 1024].
           execute sim (args\<lparr>cache := k, assoc := Some (k div block args)\<rparr>) = Inr (r k)"
    have units: "\<forall>k \<in> set [256, 512, 768, 1024].
        unit_args args k = Inr (args\<lparr>cache := k, assoc := Some (k div block args)\<rparr>)"
      using assms(1,5) by (simp add: unit_args_def py_floordiv_def)
    from batch_execute_success [OF range units ok]
    show "batch_execute sim args = Inr [(256, r 256), (512, r 512), (768, r 768), (1024, r 1024)]"
      by simp
  }
qed

theorem cache_sweep_keys_witness:
  "batch_execute (simulating summary_stream)
     (default_args\<lparr>batch := ''cache'', batch_start := 256, batch_end := 1024, batch_step := 256\<rparr>)
   = Inr [(256, PyFloat (1 / 5)), (512, PyFloat (1 / 5)), (768, PyFloat (1 / 5)),
          (1024, PyFloat (1 / 5))]"
proof -
  let ?args = "default_args\<lparr>batch := ''cache'', batch_start := 256, batch_end := 1024,
                 batch_step := 256\<rparr>"
  have h: "batch ?args = ''cache''" "batch_start ?args = 256" "batch_end ?args = 1024"
    "batch_step ?args = 256" "block ?args \<noteq> 0"
    by (simp_all add: default_args_def)
  have s: "scan_lines (0, 0) (stderr_lines summary_stream) = Inr (1000, 200)" by code_simp
  have e: "execute (simulating summary_stream) (?args\<lparr>cache := k, assoc := Some (k div block ?args)\<rparr>)
             = Inr (PyFloat (1 / 5))" for k
    using s by (simp add: execute_def cold_miss_def default_args_def simulating_def miss_ratio_def)
  then have "\<forall>k \<in> set [256, 512, 768, 1024].
      execute (simulating summary_stream) (?args\<lparr>cache := k, assoc := Some (k div block ?args)\<rparr>)
        = Inr ((\<lambda>k. PyFloat (1 / 5)) k)" by blast
  with cache_sweep_keys [OF h, of "simulating summary_stream" "[]" "\<lambda>k. PyFloat (1 / 5)"]
  show ?thesis by blast
qed



end
